theory Spec2Isabelle
  imports Main "HOL-Library.Sublist"
begin

section \<open>JavaScript values\<close>

text \<open>
  The router of \<^verbatim>\<open>src/mod.ts\<close> handles values of TypeScript type \<^verbatim>\<open>unknown\<close>: the
  values of the user-data store and the bodies given to \<^verbatim>\<open>json\<close>. Primitive values are
  held directly, arrays and plain objects by reference into a heap of objects, as
  JavaScript does, so that a structure may contain itself. The type \<open>'n\<close> is the type of
  Number values (IEEE doubles, not modelled further). Strings are sequences of bytes (the
  UTF-8 form of the text).
\<close>

type_synonym addr = nat

datatype 'n jsvalue =
    JUndefined
  | JNull
  | JBoolean bool
  | JNumber 'n
  | JString string
  | JBigInt int
  | JSymbol string
  | JFunction string
  | JRef addr



text \<open>What the code throws and catches: an \<^verbatim>\<open>Error\<close> object, with its name and message.\<close>

datatype jserror = JSError (err_name: string) (message: string)

section \<open>UserData\<close>

text \<open>
  \<^verbatim>\<open>createUserData\<close> closes \<^verbatim>\<open>set\<close>, \<^verbatim>\<open>get\<close> and \<^verbatim>\<open>del\<close> over a fresh
  \<^verbatim>\<open>Map<string, unknown>\<close>. The model passes the content of that Map explicitly.
  \<^verbatim>\<open>Map.prototype.get\<close> yields \<^verbatim>\<open>undefined\<close> for a key that is not in the Map;
  \<^verbatim>\<open>Map.prototype.delete\<close> tells whether the key was there.
\<close>

type_synonym 'n userData = "string \<rightharpoonup> 'n jsvalue"

definition createUserData :: "'n userData" where
  "createUserData = Map.empty"

definition userData_set :: "string \<Rightarrow> 'n jsvalue \<Rightarrow> 'n userData \<Rightarrow> 'n userData" where
  "userData_set key v store = store(key \<mapsto> v)"

definition userData_get :: "string \<Rightarrow> 'n userData \<Rightarrow> 'n jsvalue" where
  "userData_get key store = (case store key of None \<Rightarrow> JUndefined | Some v \<Rightarrow> v)"

definition userData_del :: "string \<Rightarrow> 'n userData \<Rightarrow> bool \<times> 'n userData" where
  "userData_del key store = (store key \<noteq> None, store(key := None))"

section \<open>Responses\<close>

text \<open>
  A \<^verbatim>\<open>Response\<close> as the code builds and returns it: status, headers (the names in
  lower case, as a \<^verbatim>\<open>Headers\<close> object holds them) and body (\<open>None\<close>: no body).
\<close>

record response =
  status :: int
  headers :: "(string \<times> string) list"
  body :: "string option"

definition asciiLower :: "char \<Rightarrow> char" where
  "asciiLower c =
     (case map_of (zip ''ABCDEFGHIJKLMNOPQRSTUVWXYZ'' ''abcdefghijklmnopqrstuvwxyz'') c of
        None \<Rightarrow> c
      | Some d \<Rightarrow> d)"

definition asciiUpper :: "char \<Rightarrow> char" where
  "asciiUpper c =
     (case map_of (zip ''abcdefghijklmnopqrstuvwxyz'' ''ABCDEFGHIJKLMNOPQRSTUVWXYZ'') c of
        None \<Rightarrow> c
      | Some d \<Rightarrow> d)"


definition nullBodyStatus :: "int \<Rightarrow> bool" where
  "nullBodyStatus st = (st \<in> {101, 103, 204, 205, 304})"

text \<open>
  \<^verbatim>\<open>new Response(body, { status, headers })\<close>, a constructor of the platform, after the
  Fetch standard: the status is converted to an unsigned 16-bit integer and must lie in
  200..599 (else a \<^verbatim>\<open>RangeError\<close>), a body is refused for a null-body status
  (a \<^verbatim>\<open>TypeError\<close>), and a string body without a given \<^verbatim>\<open>Content-Type\<close> gets
  \<^verbatim>\<open>text/plain;charset=UTF-8\<close>.
\<close>

definition newResponse :: "string option \<Rightarrow> int \<Rightarrow> (string \<times> string) list \<Rightarrow> jserror + response" where
  "newResponse b st hs =
     (let st16 = st mod 65536;
          hs' = map (\<lambda>(n, v). (map asciiLower n, v)) hs
      in if st16 < 200 \<or> 599 < st16 then
           Inl (JSError ''RangeError'' ''status outside the range 200 to 599'')
         else if b \<noteq> None \<and> nullBodyStatus st16 then
           Inl (JSError ''TypeError'' ''response with null body status cannot have body'')
         else
           Inr \<lparr>status = st16,
                headers = (if b \<noteq> None \<and> map_of hs' ''content-type'' = None
                           then hs' @ [(''content-type'', ''text/plain;charset=UTF-8'')]
                           else hs'),
                body = b\<rparr>)"

definition toText :: "int \<Rightarrow> string \<Rightarrow> jserror + response" where
  "toText statusCode text = newResponse (Some text) statusCode [(''Content-Type'', ''text/plain'')]"

definition toHtml :: "int \<Rightarrow> string \<Rightarrow> jserror + response" where
  "toHtml statusCode html = newResponse (Some html) statusCode [(''Content-Type'', ''text/html'')]"

section \<open>JSON\<close>


















section \<open>Requests, contexts and the functions of the application\<close>

record request =
  req_method :: string
  req_url :: string

text \<open>
  The result of a successful \<^verbatim>\<open>URLPattern.exec\<close> (the groups it captured), and a
  \<^verbatim>\<open>URLPattern\<close> object, held as what its \<^verbatim>\<open>exec\<close> answers for a URL (\<open>None\<close>:
  no match). \<^verbatim>\<open>Deno.ServeHandlerInfo\<close> is opaque to the router.
\<close>

type_synonym urlPatternResult = "(string \<times> string) list"

type_synonym urlPattern = "string \<Rightarrow> urlPatternResult option"

typedecl serveHandlerInfo

text \<open>
  The \<^verbatim>\<open>Context\<close> of one request. Its fields \<^verbatim>\<open>log\<close>, \<^verbatim>\<open>json\<close>, \<^verbatim>\<open>text\<close> and
  \<^verbatim>\<open>html\<close> are the same for every context (the module's logger, \<^verbatim>\<open>toJson\<close>,
  \<^verbatim>\<open>toText\<close>, \<^verbatim>\<open>toHtml\<close>) and are left out. The context is one mutable object
  handed to every function of the chain: each function of the model returns the context
  as it left it.
\<close>

record 'n Context =
  request :: request
  params :: "urlPatternResult option"
  info :: "serveHandlerInfo option"
  userData :: "'n userData"

text \<open>
  A \<^verbatim>\<open>Middleware\<close> may change the context; it completes (\<open>None\<close>) or fails with an
  error (thrown, or the rejection of its promise: \<^verbatim>\<open>await\<close> inside \<^verbatim>\<open>try\<close> treats
  both alike). A \<^verbatim>\<open>Handler\<close> gives a response or fails. An \<^verbatim>\<open>ErrorHandler\<close>
  returns a response, throws before it returns, or returns a promise that is rejected
  later; the context it gives back holds the changes it made before it returned.
  Functions that never complete are not modelled.
\<close>

type_synonym 'n middleware = "'n Context \<Rightarrow> jserror option \<times> 'n Context"

type_synonym 'n handler = "'n Context \<Rightarrow> jserror + response"

datatype ehOutcome = Returned response | Thrown jserror | Rejected jserror

type_synonym 'n errorHandler = "'n Context \<Rightarrow> jserror \<Rightarrow> ehOutcome \<times> 'n Context"

text \<open>
  What one request makes observable besides its result: the calls of the application's
  functions, in the order they are made, each with the context as it was at the call.
\<close>

datatype 'n event =
    MiddlewareCall "'n middleware" "'n Context"
  | ErrorHandlerCall "'n errorHandler" "'n Context" jserror
  | HandlerCall "'n handler" "'n Context"

definition createContext ::
    "request \<Rightarrow> urlPatternResult option \<Rightarrow> serveHandlerInfo option \<Rightarrow> 'n Context" where
  "createContext req ps si =
     \<lparr>request = req, params = ps, info = si, userData = createUserData\<rparr>"

section \<open>runMiddlewares\<close>

text \<open>
  The \<^verbatim>\<open>for\<close> loop inside \<^verbatim>\<open>try\<close>: the middlewares are awaited one after the other;
  the first failure leaves the loop with the error.
\<close>

fun runLoop ::
    "'n middleware list \<Rightarrow> 'n Context \<Rightarrow> jserror option \<times> 'n Context \<times> 'n event list" where
  "runLoop [] ctx = (None, ctx, [])"
| "runLoop (mw # mws) ctx =
     (case mw ctx of
        (Some err, ctx') \<Rightarrow> (Some err, ctx', [MiddlewareCall mw ctx])
      | (None, ctx') \<Rightarrow>
          (case runLoop mws ctx' of
             (r, ctx'', evs) \<Rightarrow> (r, ctx'', MiddlewareCall mw ctx # evs)))"

text \<open>
  \<^verbatim>\<open>runMiddlewares\<close>: the \<^verbatim>\<open>catch\<close> block calls the error handler and drops what it
  returns (the call is neither awaited nor returned), so the function completes normally
  after a middleware failure; only an error handler that throws before returning makes
  it fail.
\<close>

definition runMiddlewares ::
    "'n Context \<Rightarrow> 'n errorHandler \<Rightarrow> 'n middleware list
      \<Rightarrow> (jserror + unit) \<times> 'n Context \<times> 'n event list" where
  "runMiddlewares ctx callErrorHandler middlewares =
     (case runLoop middlewares ctx of
        (None, ctx', evs) \<Rightarrow> (Inr (), ctx', evs)
      | (Some err, ctx', evs) \<Rightarrow>
          (case callErrorHandler ctx' err of
             (Thrown e, ctx'') \<Rightarrow>
               (Inl e, ctx'', evs @ [ErrorHandlerCall callErrorHandler ctx' err])
           | (_, ctx'') \<Rightarrow>
               (Inr (), ctx'', evs @ [ErrorHandlerCall callErrorHandler ctx' err])))"

section \<open>The handlers the router builds\<close>

text \<open>
  \<^verbatim>\<open>createRouterHandler\<close> and \<^verbatim>\<open>createDenoHandler\<close> return closures. A closure is
  held as the values it captured: the handler, the error handler and the array of
  middlewares, the array by its address in the store of \<^verbatim>\<open>Middleware[]\<close> objects, since
  arrays are shared by reference and \<^verbatim>\<open>use\<close> changes one in place. Calling the
  closure reads the array as the store has it at that time.
\<close>

type_synonym 'n arrays = "'n middleware list list"

datatype 'n routerHandler =
  RouterHandler (rh_handler: "'n handler") (rh_errorHandler: "'n errorHandler") (rh_middlewares: addr)

text \<open>
  A \<^verbatim>\<open>denoHandler\<close> is the initial value of \<^verbatim>\<open>notFoundHandler\<close> (an arrow function that
  captures nothing) or a closure of \<^verbatim>\<open>createDenoHandler\<close>.
\<close>

datatype 'n denoHandler =
    InitialNotFound
  | DenoHandler (dh_handler: "'n handler") (dh_errorHandler: "'n errorHandler") (dh_middlewares: addr)

definition createRouterHandler :: "'n handler \<Rightarrow> 'n errorHandler \<Rightarrow> addr \<Rightarrow> 'n routerHandler" where
  "createRouterHandler h eh middlewares = RouterHandler h eh middlewares"

definition createDenoHandler :: "'n handler \<Rightarrow> 'n errorHandler \<Rightarrow> addr \<Rightarrow> 'n denoHandler" where
  "createDenoHandler h eh middlewares = DenoHandler h eh middlewares"

text \<open>
  The body both closures share: create the context, await \<^verbatim>\<open>runMiddlewares\<close>, then
  \<^verbatim>\<open>return handler(ctx)\<close>. The handler is called whenever \<^verbatim>\<open>runMiddlewares\<close> completes
  normally. The result is the response or the error the returned promise settles to,
  with the calls made.
\<close>

definition runHandler ::
    "'n handler \<Rightarrow> 'n errorHandler \<Rightarrow> 'n middleware list \<Rightarrow> 'n Context
      \<Rightarrow> (jserror + response) \<times> 'n event list" where
  "runHandler h eh middlewares ctx =
     (case runMiddlewares ctx eh middlewares of
        (Inl e, ctx', evs) \<Rightarrow> (Inl e, evs)
      | (Inr u, ctx', evs) \<Rightarrow> (h ctx', evs @ [HandlerCall h ctx']))"

fun callRouterHandler ::
    "'n arrays \<Rightarrow> 'n routerHandler \<Rightarrow> request \<Rightarrow> urlPatternResult option
      \<Rightarrow> serveHandlerInfo option \<Rightarrow> (jserror + response) \<times> 'n event list" where
  "callRouterHandler store (RouterHandler h eh a) req ps si =
     runHandler h eh (store ! a) (createContext req ps si)"

fun callDenoHandler ::
    "'n arrays \<Rightarrow> 'n denoHandler \<Rightarrow> request \<Rightarrow> serveHandlerInfo option
      \<Rightarrow> (jserror + response) \<times> 'n event list" where
  "callDenoHandler store InitialNotFound req si = (newResponse (Some ''Not Found'') 404 [], [])"
| "callDenoHandler store (DenoHandler h eh a) req si =
     runHandler h eh (store ! a) (createContext req None si)"

section \<open>The router\<close>

record 'n route =
  "method" :: "string list"
  pattern :: urlPattern
  handler :: "'n routerHandler"

text \<open>
  The variables of one call of \<^verbatim>\<open>router()\<close>, which all its functions close over: the
  \<^verbatim>\<open>routes\<close> array (never copied, so held by its content), the address of the
  \<^verbatim>\<open>globalMiddlewares\<close> array, and the variables \<^verbatim>\<open>errorHandler\<close> and
  \<^verbatim>\<open>notFoundHandler\<close>; with them the store of \<^verbatim>\<open>Middleware[]\<close> objects. A new array
  gets the next free address, the length of the store.
\<close>

record 'n router =
  arrays :: "'n arrays"
  routes :: "'n route list"
  globalMiddlewares :: addr
  errorHandler :: "'n errorHandler"
  notFoundHandler :: "'n denoHandler"

text \<open>The initial value of \<^verbatim>\<open>errorHandler\<close>.\<close>

definition initialErrorHandler :: "'n errorHandler" where
  "initialErrorHandler ctx err =
     (case newResponse (Some (''Error: '' @ message err)) 500 [] of
        Inl e \<Rightarrow> (Thrown e, ctx)
      | Inr r \<Rightarrow> (Returned r, ctx))"

definition router :: "'n router" where
  "router = \<lparr>arrays = [[]], routes = [], globalMiddlewares = 0,
             errorHandler = initialErrorHandler, notFoundHandler = InitialNotFound\<rparr>"

definition onError :: "'n errorHandler \<Rightarrow> 'n router \<Rightarrow> 'n router" where
  "onError h s = s\<lparr>errorHandler := h\<rparr>"

text \<open>\<^verbatim>\<open>[...globalMiddlewares]\<close> is a new array with the elements the global one has now.\<close>

definition onNotFound :: "'n handler \<Rightarrow> 'n router \<Rightarrow> 'n router" where
  "onNotFound h s =
     s\<lparr>arrays := arrays s @ [arrays s ! globalMiddlewares s],
       notFoundHandler := createDenoHandler h (errorHandler s) (length (arrays s))\<rparr>"

text \<open>\<^verbatim>\<open>globalMiddlewares.push(...middlewares)\<close> changes the global array in place.\<close>

definition use :: "'n middleware list \<Rightarrow> 'n router \<Rightarrow> 'n router" where
  "use middlewares s =
     s\<lparr>arrays := (arrays s)[globalMiddlewares s := arrays s ! globalMiddlewares s @ middlewares]\<rparr>"

definition toUpperCase :: "string \<Rightarrow> string" where
  "toUpperCase str = map asciiUpper str"

text \<open>
  \<^verbatim>\<open>factory(method)(pattern, handler, ...middlewares)\<close>. \<^verbatim>\<open>new URLPattern\<close> is the
  platform's; it is the parameter \<open>newURLPattern\<close>, which throws for a pattern it cannot
  parse, and then nothing is pushed. \<^verbatim>\<open>factory\<close> is only ever applied to the five
  lower-case ASCII names below, for which \<^verbatim>\<open>toUpperCase\<close> is the ASCII one.
\<close>

definition factory ::
    "(string \<Rightarrow> jserror + urlPattern) \<Rightarrow> string \<Rightarrow> string \<Rightarrow> 'n handler \<Rightarrow> 'n middleware list
      \<Rightarrow> 'n router \<Rightarrow> jserror + 'n router" where
  "factory newURLPattern meth pat h middlewares s =
     (case newURLPattern pat of
        Inl e \<Rightarrow> Inl e
      | Inr p \<Rightarrow>
          Inr (s\<lparr>arrays := arrays s @ [arrays s ! globalMiddlewares s @ middlewares],
                 routes := routes s @
                   [\<lparr>method = [toUpperCase meth], pattern = p,
                     handler = createRouterHandler h (errorHandler s) (length (arrays s))\<rparr>]\<rparr>))"

text \<open>
  The calls an application makes on the router object, and a sequence of them; an
  exception that a call throws ends the sequence.
\<close>

datatype verb = Get | Post | Put | Delete | Patch

fun verbName :: "verb \<Rightarrow> string" where
  "verbName Get = ''get''"
| "verbName Post = ''post''"
| "verbName Put = ''put''"
| "verbName Delete = ''delete''"
| "verbName Patch = ''patch''"

datatype 'n call =
    Use "'n middleware list"
  | OnError "'n errorHandler"
  | OnNotFound "'n handler"
  | Register verb string "'n handler" "'n middleware list"

fun perform ::
    "(string \<Rightarrow> jserror + urlPattern) \<Rightarrow> 'n call \<Rightarrow> 'n router \<Rightarrow> jserror + 'n router" where
  "perform U (Use middlewares) s = Inr (use middlewares s)"
| "perform U (OnError h) s = Inr (onError h s)"
| "perform U (OnNotFound h) s = Inr (onNotFound h s)"
| "perform U (Register v pat h middlewares) s = factory U (verbName v) pat h middlewares s"

fun performAll ::
    "(string \<Rightarrow> jserror + urlPattern) \<Rightarrow> 'n call list \<Rightarrow> 'n router \<Rightarrow> jserror + 'n router" where
  "performAll U [] s = Inr s"
| "performAll U (c # cs) s =
     (case perform U c s of Inl e \<Rightarrow> Inl e | Inr s' \<Rightarrow> performAll U cs s')"

section \<open>Dispatch\<close>

text \<open>
  Modelled from the spec: \<^verbatim>\<open>route\<close> of the package \<^verbatim>\<open>@std/http\<close>, which
  \<^verbatim>\<open>src/mod.ts\<close> imports and whose code is not part of the repository. The spec: for an
  incoming method and path, scan the table in registration order; a route matches iff
  the method is in its method-set and the pattern matches the path, which gives the
  captured parameters; the first match wins; if no route matches, control passes to the
  not-found path.
\<close>

fun firstMatch :: "'n route list \<Rightarrow> request \<Rightarrow> ('n route \<times> urlPatternResult) option" where
  "firstMatch [] req = None"
| "firstMatch (r # rs) req =
     (case pattern r (req_url req) of
        None \<Rightarrow> firstMatch rs req
      | Some m \<Rightarrow> if req_method req \<in> set (method r) then Some (r, m) else firstMatch rs req)"

definition route ::
    "'n arrays \<Rightarrow> 'n route list \<Rightarrow> 'n denoHandler \<Rightarrow> request \<Rightarrow> serveHandlerInfo option
      \<Rightarrow> (jserror + response) \<times> 'n event list" where
  "route store rs defaultHandler req si =
     (case firstMatch rs req of
        None \<Rightarrow> callDenoHandler store defaultHandler req si
      | Some (r, m) \<Rightarrow> callRouterHandler store (handler r) req (Some m) si)"

text \<open>
  \<^verbatim>\<open>listen\<close> hands \<^verbatim>\<open>route(routes, notFoundHandler)\<close> to \<^verbatim>\<open>Deno.serve\<close>: the server
  holds the \<^verbatim>\<open>routes\<close> array itself and the value \<^verbatim>\<open>notFoundHandler\<close> has at that
  call. Host name, port and logging are the platform's business. \<^verbatim>\<open>serve\<close> is the
  server answering one request when the router's variables are \<open>s\<close>.
\<close>

datatype 'n listener = Listener (defaultHandler: "'n denoHandler")

definition listen :: "'n router \<Rightarrow> 'n listener" where
  "listen s = Listener (notFoundHandler s)"

definition serve ::
    "'n listener \<Rightarrow> 'n router \<Rightarrow> request \<Rightarrow> serveHandlerInfo option
      \<Rightarrow> (jserror + response) \<times> 'n event list" where
  "serve l s req si = route (arrays s) (routes s) (defaultHandler l) req si"

section \<open>What a run shows\<close>

text \<open>
  Functions that read a list of calls: the middlewares called, in order; whether a call
  is a middleware call that failed; the kind of a call.
\<close>

fun calledMiddlewares :: "'n event list \<Rightarrow> 'n middleware list" where
  "calledMiddlewares [] = []"
| "calledMiddlewares (MiddlewareCall mw ctx # evs) = mw # calledMiddlewares evs"
| "calledMiddlewares (ev # evs) = calledMiddlewares evs"

fun failedCall :: "'n event \<Rightarrow> bool" where
  "failedCall (MiddlewareCall mw ctx) = (fst (mw ctx) \<noteq> None)"
| "failedCall ev = False"

fun isMiddlewareCall :: "'n event \<Rightarrow> bool" where
  "isMiddlewareCall (MiddlewareCall mw ctx) = True"
| "isMiddlewareCall ev = False"

fun isHandlerCall :: "'n event \<Rightarrow> bool" where
  "isHandlerCall (HandlerCall h ctx) = True"
| "isHandlerCall ev = False"

fun isErrorHandlerCall :: "'n event \<Rightarrow> bool" where
  "isErrorHandlerCall (ErrorHandlerCall eh ctx err) = True"
| "isErrorHandlerCall ev = False"

text \<open>
  Functions that read the calls an application made on the router: the middlewares
  given to \<^verbatim>\<open>use\<close>, in the order of the calls; the kind of a call.
\<close>

fun usedMiddlewares :: "'n call list \<Rightarrow> 'n middleware list" where
  "usedMiddlewares [] = []"
| "usedMiddlewares (Use mws # cs) = mws @ usedMiddlewares cs"
| "usedMiddlewares (c # cs) = usedMiddlewares cs"

fun isOnNotFound :: "'n call \<Rightarrow> bool" where
  "isOnNotFound (OnNotFound h) = True"
| "isOnNotFound c = False"

fun isOnError :: "'n call \<Rightarrow> bool" where
  "isOnError (OnError h) = True"
| "isOnError c = False"

text \<open>
  A route matches a request, in the words of the spec: the method is in its method-set
  and its pattern matches the path.
\<close>

definition matches :: "'n route \<Rightarrow> request \<Rightarrow> bool" where
  "matches r req = (req_method req \<in> set (method r) \<and> pattern r (req_url req) \<noteq> None)"





section \<open>A sample application\<close>

text \<open>
  Concrete values on which the theorems below are applied: a stand-in for
  \<^verbatim>\<open>new URLPattern\<close> that matches one literal path, middlewares that set a flag in the
  user data or fail, handlers, an error handler, two requests, and the router after some
  sequences of calls.
\<close>

definition exactPattern :: "string \<Rightarrow> jserror + urlPattern" where
  "exactPattern pat =
     (if pat = [] then Inl (JSError ''TypeError'' ''invalid pattern'')
      else Inr (\<lambda>url. if url = pat then Some [] else None))"

definition setFlag :: "string \<Rightarrow> unit middleware" where
  "setFlag key ctx = (None, ctx\<lparr>userData := userData_set key (JBoolean True) (userData ctx)\<rparr>)"

definition deny :: "string \<Rightarrow> unit middleware" where
  "deny msg ctx = (Some (JSError ''Error'' msg), ctx)"

definition hello :: "unit handler" where
  "hello ctx = toText 200 ''Hello world!''"

definition broken :: "unit handler" where
  "broken ctx = Inl (JSError ''Error'' ''boom'')"

definition gone :: "unit handler" where
  "gone ctx = toText 410 ''Gone''"

definition teapot :: "unit errorHandler" where
  "teapot ctx err = (Returned \<lparr>status = 418, headers = [], body = None\<rparr>, ctx)"

definition getHello :: request where
  "getHello = \<lparr>req_method = ''GET'', req_url = ''/hello''\<rparr>"

definition getOther :: request where
  "getOther = \<lparr>req_method = ''GET'', req_url = ''/other''\<rparr>"

definition demo0 :: "unit router" where
  "demo0 = use [setFlag ''seen''] router"

definition demo1 :: "unit router" where
  "demo1 = demo0\<lparr>arrays := arrays demo0 @ [[setFlag ''seen'', deny ''Unauthorized'', setFlag ''never'']],
                 routes := [\<lparr>method = [''GET''], pattern = (\<lambda>url. if url = ''/hello'' then Some [] else None),
                            handler = RouterHandler hello initialErrorHandler 1\<rparr>]\<rparr>"

definition demo2 :: "unit router" where
  "demo2 = onError teapot (use [setFlag ''late''] demo1)"

definition demoNF :: "unit router" where
  "demoNF = use [setFlag ''late''] (onNotFound gone demo0)"

definition demoTwo :: "unit router" where
  "demoTwo = router\<lparr>arrays := [[], [], []],
       routes := [\<lparr>method = [''GET''], pattern = (\<lambda>url. if url = ''/hello'' then Some [] else None),
                   handler = RouterHandler hello initialErrorHandler 1\<rparr>,
                  \<lparr>method = [''GET''], pattern = (\<lambda>url. if url = ''/hello'' then Some [] else None),
                   handler = RouterHandler gone initialErrorHandler 2\<rparr>]\<rparr>"

definition demoBroken :: "unit router" where
  "demoBroken = demo0\<lparr>arrays := arrays demo0 @ [[setFlag ''seen'']],
       routes := [\<lparr>method = [''GET''], pattern = (\<lambda>url. if url = ''/hello'' then Some [] else None),
                   handler = RouterHandler broken initialErrorHandler 1\<rparr>]\<rparr>"

definition demoOne :: "unit router" where
  "demoOne = router\<lparr>arrays := [[], []],
       routes := [\<lparr>method = [''GET''], pattern = (\<lambda>url. if url = ''/hello'' then Some [] else None),
                   handler = RouterHandler hello initialErrorHandler 1\<rparr>]\<rparr>"

definition demoThree :: "unit router" where
  "demoThree = demoTwo\<lparr>arrays := arrays demoTwo @ [[]],
       routes := routes demoTwo @
         [\<lparr>method = [''GET''], pattern = (\<lambda>url. if url = ''/hello'' then Some [] else None),
           handler = RouterHandler broken initialErrorHandler 3\<rparr>]\<rparr>"




section \<open>Serialization\<close>













section \<open>The loop over the middlewares\<close>

lemma runLoop_None:
  "runLoop mws ctx = (None, ctx', evs) \<Longrightarrow>
     calledMiddlewares evs = mws \<and> length evs = length mws \<and> (\<forall>ev \<in> set evs. isMiddlewareCall ev \<and> \<not> failedCall ev)"
proof (induction mws arbitrary: ctx evs)
  case Nil
  then show ?case by simp
next
  case (Cons mw mws)
  then show ?case
    by (auto split: prod.splits option.splits)
qed

lemma runLoop_Some:
  "runLoop mws ctx = (Some err, ctx', evs) \<Longrightarrow>
     (\<exists>pre mw c. evs = pre @ [MiddlewareCall mw c] \<and> fst (mw c) = Some err \<and> snd (mw c) = ctx'
        \<and> prefix (calledMiddlewares pre @ [mw]) mws
        \<and> (\<forall>ev \<in> set pre. isMiddlewareCall ev \<and> \<not> failedCall ev))"
proof (induction mws arbitrary: ctx evs)
  case Nil
  then show ?case by simp
next
  case (Cons mw mws)
  show ?case
  proof (cases "mw ctx")
    case (Pair r c1)
    show ?thesis
    proof (cases r)
      case None
      with Pair Cons.prems obtain evs' where
        run: "runLoop mws c1 = (Some err, ctx', evs')" and evs: "evs = MiddlewareCall mw ctx # evs'"
        by (auto split: prod.splits)
      from Cons.IH [OF run] obtain pre m c where
        "evs' = pre @ [MiddlewareCall m c]" "fst (m c) = Some err" "snd (m c) = ctx'"
        "prefix (calledMiddlewares pre @ [m]) mws"
        "\<forall>ev \<in> set pre. isMiddlewareCall ev \<and> \<not> failedCall ev"
        by blast
      with evs None Pair show ?thesis
        by (intro exI [of _ "MiddlewareCall mw ctx # pre"] exI [of _ m] exI [of _ c]) simp
    next
      case (Some e)
      with Pair Cons.prems show ?thesis
        by (intro exI [of _ "[]"] exI [of _ mw] exI [of _ ctx]) auto
    qed
  qed
qed

lemma runHandler_shape:
  assumes "runHandler h eh mws ctx = (res, evs)"
  obtains (completed) ctx' mevs where
      "runLoop mws ctx = (None, ctx', mevs)" "evs = mevs @ [HandlerCall h ctx']" "res = h ctx'"
    | (continued) err ctx' mevs out ctx'' where
      "runLoop mws ctx = (Some err, ctx', mevs)" "eh ctx' err = (out, ctx'')"
      "evs = mevs @ [ErrorHandlerCall eh ctx' err, HandlerCall h ctx'']" "res = h ctx''"
    | (thrown) err ctx' mevs e ctx'' where
      "runLoop mws ctx = (Some err, ctx', mevs)" "eh ctx' err = (Thrown e, ctx'')"
      "evs = mevs @ [ErrorHandlerCall eh ctx' err]" "res = Inl e"
  using assms
  by (auto simp: runHandler_def runMiddlewares_def split: prod.splits option.splits ehOutcome.splits)

lemma calledMiddlewares_append [simp]:
  "calledMiddlewares (xs @ ys) = calledMiddlewares xs @ calledMiddlewares ys"
  by (induction xs rule: calledMiddlewares.induct) simp_all

lemma failedCall_isMiddlewareCall: "failedCall ev \<Longrightarrow> isMiddlewareCall ev"
  by (cases ev) simp_all

lemma no_HandlerCall:
  "\<forall>ev \<in> set evs. isMiddlewareCall ev \<and> P ev \<Longrightarrow> HandlerCall h c \<notin> set evs"
  by fastforce

lemma runHandler_order:
  assumes "runHandler h eh mws ctx = (res, evs)"
  shows "prefix (calledMiddlewares evs) mws"
    and "\<And>xs ev ys. evs = xs @ ev # ys \<Longrightarrow> failedCall ev \<Longrightarrow> calledMiddlewares ys = []"
    and "(\<forall>ev \<in> set evs. \<not> failedCall ev) \<Longrightarrow> calledMiddlewares evs = mws"
proof -
  show "prefix (calledMiddlewares evs) mws"
    using assms
  proof (cases rule: runHandler_shape)
    case (completed ctx' mevs)
    then show ?thesis using runLoop_None [OF completed(1)] by simp
  next
    case (continued err ctx' mevs out ctx'')
    then show ?thesis using runLoop_Some [OF continued(1)] by auto
  next
    case (thrown err ctx' mevs e ctx'')
    then show ?thesis using runLoop_Some [OF thrown(1)] by auto
  qed
  show "calledMiddlewares evs = mws" if "\<forall>ev \<in> set evs. \<not> failedCall ev"
    using assms
  proof (cases rule: runHandler_shape)
    case (completed ctx' mevs)
    then show ?thesis using runLoop_None [OF completed(1)] by simp
  next
    case (continued err ctx' mevs out ctx'')
    then show ?thesis using runLoop_Some [OF continued(1)] that by auto
  next
    case (thrown err ctx' mevs e ctx'')
    then show ?thesis using runLoop_Some [OF thrown(1)] that by auto
  qed
  show "calledMiddlewares ys = []" if split: "evs = xs @ ev # ys" and failed: "failedCall ev" for xs ev ys
    using assms
  proof (cases rule: runHandler_shape)
    case (completed ctx' mevs)
    have "ev \<in> set evs" using split by simp
    then show ?thesis using runLoop_None [OF completed(1)] completed(2) failed by auto
  next
    case (continued err ctx' mevs out ctx'')
    from runLoop_Some [OF continued(1)] obtain pre mw c where
      mevs: "mevs = pre @ [MiddlewareCall mw c]" and pre: "\<forall>ev \<in> set pre. isMiddlewareCall ev \<and> \<not> failedCall ev"
      by blast
    have eq: "xs @ ev # ys = pre @ (MiddlewareCall mw c # [ErrorHandlerCall eh ctx' err, HandlerCall h ctx''])"
      using split continued(3) mevs by simp
    have "ev \<notin> set pre" using pre failed by auto
    then have "ys = [ErrorHandlerCall eh ctx' err, HandlerCall h ctx'']"
      using eq failed by (auto simp: append_eq_append_conv2 append_eq_Cons_conv Cons_eq_append_conv)
    then show ?thesis by simp
  next
    case (thrown err ctx' mevs e ctx'')
    from runLoop_Some [OF thrown(1)] obtain pre mw c where
      mevs: "mevs = pre @ [MiddlewareCall mw c]" and pre: "\<forall>ev \<in> set pre. isMiddlewareCall ev \<and> \<not> failedCall ev"
      by blast
    have eq: "xs @ ev # ys = pre @ (MiddlewareCall mw c # [ErrorHandlerCall eh ctx' err])"
      using split thrown(3) mevs by simp
    have "ev \<notin> set pre" using pre failed by auto
    then have "ys = [ErrorHandlerCall eh ctx' err]"
      using eq failed by (auto simp: append_eq_append_conv2 append_eq_Cons_conv Cons_eq_append_conv)
    then show ?thesis by simp
  qed
qed

section \<open>What the calls on the router change\<close>

lemma usedMiddlewares_append [simp]:
  "usedMiddlewares (cs @ ds) = usedMiddlewares cs @ usedMiddlewares ds"
  by (induction cs rule: usedMiddlewares.induct) simp_all

lemma perform_frame:
  assumes "perform U c s = Inr s'" and "globalMiddlewares s < length (arrays s)"
  shows "globalMiddlewares s' = globalMiddlewares s"
    and "length (arrays s) \<le> length (arrays s')"
    and "arrays s' ! globalMiddlewares s = arrays s ! globalMiddlewares s @ usedMiddlewares [c]"
    and "\<And>a. a < length (arrays s) \<Longrightarrow> a \<noteq> globalMiddlewares s \<Longrightarrow> arrays s' ! a = arrays s ! a"
    and "prefix (routes s) (routes s')"
    and "\<not> isOnError c \<Longrightarrow> errorHandler s' = errorHandler s"
    and "\<not> isOnNotFound c \<Longrightarrow> notFoundHandler s' = notFoundHandler s"
  using assms
  by (cases c; auto simp: use_def onError_def onNotFound_def factory_def nth_append split: sum.splits)+

lemma performAll_frame:
  assumes "performAll U cs s = Inr s'" and "globalMiddlewares s < length (arrays s)"
  shows "globalMiddlewares s' = globalMiddlewares s \<and> length (arrays s) \<le> length (arrays s')
    \<and> arrays s' ! globalMiddlewares s = arrays s ! globalMiddlewares s @ usedMiddlewares cs
    \<and> (\<forall>a. a < length (arrays s) \<longrightarrow> a \<noteq> globalMiddlewares s \<longrightarrow> arrays s' ! a = arrays s ! a)
    \<and> prefix (routes s) (routes s')
    \<and> ((\<forall>c \<in> set cs. \<not> isOnError c) \<longrightarrow> errorHandler s' = errorHandler s)
    \<and> ((\<forall>c \<in> set cs. \<not> isOnNotFound c) \<longrightarrow> notFoundHandler s' = notFoundHandler s)"
  using assms
proof (induction cs arbitrary: s)
  case Nil
  then show ?case by simp
next
  case (Cons c cs)
  from Cons.prems obtain s1 where c: "perform U c s = Inr s1" and cs: "performAll U cs s1 = Inr s'"
    by (auto split: sum.splits)
  note f = perform_frame [OF c Cons.prems(2)]
  have wf1: "globalMiddlewares s1 < length (arrays s1)"
    using f(1,2) Cons.prems(2) by simp
  note ih = Cons.IH [OF cs wf1]
  have u: "usedMiddlewares (c # cs) = usedMiddlewares [c] @ usedMiddlewares cs"
    using usedMiddlewares_append [of "[c]" cs] by simp
  show ?case
    using ih f Cons.prems(2) unfolding u
    by (auto intro: prefix_order.trans)
qed

lemma performAll_append:
  "performAll U (cs @ ds) s =
     (case performAll U cs s of Inl e \<Rightarrow> Inl e | Inr s' \<Rightarrow> performAll U ds s')"
  by (induction cs arbitrary: s) (simp_all split: sum.splits)

lemma reachable:
  assumes "performAll U cs router = Inr s"
  shows "globalMiddlewares s < length (arrays s)"
    and "arrays s ! globalMiddlewares s = usedMiddlewares cs"
proof -
  have "globalMiddlewares (router :: 'a router) < length (arrays (router :: 'a router))"
    by (simp add: router_def)
  from performAll_frame [OF assms this]
  show "globalMiddlewares s < length (arrays s)"
    and "arrays s ! globalMiddlewares s = usedMiddlewares cs"
    by (auto simp: router_def)
qed

lemma prefix_nth: "prefix xs ys \<Longrightarrow> i < length xs \<Longrightarrow> ys ! i = xs ! i"
  by (auto simp: prefix_def nth_append)

lemma registered_route:
  assumes before: "performAll U before router = Inr s"
      and reg: "factory U meth pat h ms s = Inr s1"
      and after: "performAll U after s1 = Inr s2"
  shows "routes s2 ! length (routes s) = routes s1 ! length (routes s)"
    and "handler (routes s2 ! length (routes s)) = createRouterHandler h (errorHandler s) (length (arrays s))"
    and "arrays s2 ! length (arrays s) = usedMiddlewares before @ ms"
    and "length (routes s) < length (routes s2)"
proof -
  note r = reachable [OF before]
  from reg obtain p where p: "U pat = Inr p"
    and s1: "s1 = s\<lparr>arrays := arrays s @ [arrays s ! globalMiddlewares s @ ms],
                 routes := routes s @
                   [\<lparr>method = [toUpperCase meth], pattern = p,
                     handler = createRouterHandler h (errorHandler s) (length (arrays s))\<rparr>]\<rparr>"
    by (auto simp: factory_def split: sum.splits)
  have wf1: "globalMiddlewares s1 < length (arrays s1)"
    using r(1) by (simp add: s1)
  note f = performAll_frame [OF after wf1]
  have pre: "prefix (routes s1) (routes s2)" using f by simp
  have len: "length (routes s) < length (routes s1)" by (simp add: s1)
  show 1: "routes s2 ! length (routes s) = routes s1 ! length (routes s)"
    using prefix_nth [OF pre len] .
  show "handler (routes s2 ! length (routes s)) = createRouterHandler h (errorHandler s) (length (arrays s))"
    unfolding 1 by (simp add: s1)
  have "arrays s2 ! length (arrays s) = arrays s1 ! length (arrays s)"
    using f r(1) by (simp add: s1)
  then show "arrays s2 ! length (arrays s) = usedMiddlewares before @ ms"
    using r(2) by (simp add: s1)
  show "length (routes s) < length (routes s2)"
    using len pre by (auto simp: prefix_def)
qed

lemma compiled_notFound:
  assumes before: "performAll U before router = Inr s"
      and after: "performAll U after (onNotFound h s) = Inr s2"
  shows "arrays s2 ! length (arrays s) = usedMiddlewares before"
    and "arrays s2 ! globalMiddlewares s2 = usedMiddlewares before @ usedMiddlewares after"
    and "(\<forall>c \<in> set after. \<not> isOnNotFound c) \<longrightarrow>
           notFoundHandler s2 = createDenoHandler h (errorHandler s) (length (arrays s))"
proof -
  note r = reachable [OF before]
  have wf1: "globalMiddlewares (onNotFound h s) < length (arrays (onNotFound h s))"
    using r(1) by (simp add: onNotFound_def)
  note f = performAll_frame [OF after wf1]
  have "arrays s2 ! length (arrays s) = arrays (onNotFound h s) ! length (arrays s)"
    using f r(1) by (simp add: onNotFound_def)
  then show "arrays s2 ! length (arrays s) = usedMiddlewares before"
    using r(2) by (simp add: onNotFound_def)
  show "arrays s2 ! globalMiddlewares s2 = usedMiddlewares before @ usedMiddlewares after"
    using f r by (simp add: onNotFound_def nth_append)
  show "(\<forall>c \<in> set after. \<not> isOnNotFound c) \<longrightarrow>
           notFoundHandler s2 = createDenoHandler h (errorHandler s) (length (arrays s))"
    using f by (simp add: onNotFound_def)
qed

lemma registered_route_entry:
  assumes before: "performAll U before router = Inr s"
      and reg: "factory U meth pat h ms s = Inr s1"
      and after: "performAll U after s1 = Inr s2"
      and p: "U pat = Inr p"
  shows "routes s2 ! length (routes s) =
           \<lparr>method = [toUpperCase meth], pattern = p,
            handler = createRouterHandler h (errorHandler s) (length (arrays s))\<rparr>"
proof -
  have "routes s1 ! length (routes s) =
           \<lparr>method = [toUpperCase meth], pattern = p,
            handler = createRouterHandler h (errorHandler s) (length (arrays s))\<rparr>"
    using reg p by (auto simp: factory_def)
  then show ?thesis
    using registered_route(1) [OF before reg after] by simp
qed

lemma perform_addresses:
  assumes "perform U c s = Inr s'"
      and "\<forall>r \<in> set (routes s). rh_middlewares (handler r) < length (arrays s)"
  shows "\<forall>r \<in> set (routes s'). rh_middlewares (handler r) < length (arrays s')"
  using assms
  by (cases c)
     (auto simp: use_def onError_def onNotFound_def factory_def createRouterHandler_def
        less_Suc_eq split: sum.splits)

lemma performAll_addresses:
  assumes "performAll U cs s = Inr s'"
      and "\<forall>r \<in> set (routes s). rh_middlewares (handler r) < length (arrays s)"
  shows "\<forall>r \<in> set (routes s'). rh_middlewares (handler r) < length (arrays s')"
  using assms
proof (induction cs arbitrary: s)
  case Nil
  then show ?case by simp
next
  case (Cons c cs)
  from Cons.prems(1) obtain s1 where c: "perform U c s = Inr s1" and cs: "performAll U cs s1 = Inr s'"
    by (auto split: sum.splits)
  from Cons.IH [OF cs perform_addresses [OF c Cons.prems(2)]] show ?case .
qed

lemma reachable_addresses:
  assumes "performAll U cs router = Inr s"
  shows "\<forall>r \<in> set (routes s). rh_middlewares (handler r) < length (arrays s)"
  using performAll_addresses [OF assms] by (simp add: router_def)

section \<open>The first matching route\<close>

text \<open>
  Registration appends to the table, so the order of the table is the order of
  registration (\<open>registered_route\<close>, \<open>performAll_frame\<close>).
\<close>

lemma firstMatch_None: "firstMatch rs req = None \<longleftrightarrow> (\<forall>r \<in> set rs. \<not> matches r req)"
  by (induction rs) (auto simp: matches_def split: option.splits)

lemma firstMatch_first:
  assumes "k < length rs" and "matches (rs ! k) req" and "\<forall>k' < k. \<not> matches (rs ! k') req"
  shows "firstMatch rs req = Some (rs ! k, the (pattern (rs ! k) (req_url req)))"
  using assms
proof (induction rs arbitrary: k)
  case Nil
  then show ?case by simp
next
  case (Cons r rs)
  show ?case
  proof (cases k)
    case 0
    with Cons.prems show ?thesis by (auto simp: matches_def)
  next
    case (Suc n)
    with Cons.prems have "\<not> matches r req" by auto
    moreover have "firstMatch rs req = Some (rs ! n, the (pattern (rs ! n) (req_url req)))"
      using Cons.prems Suc by (intro Cons.IH) auto
    ultimately show ?thesis using Suc by (auto simp: matches_def split: option.splits)
  qed
qed

lemma firstMatch_Some:
  assumes "firstMatch rs req = Some (r, m)"
  shows "\<exists>k < length rs. r = rs ! k \<and> matches r req \<and> pattern r (req_url req) = Some m
           \<and> (\<forall>k' < k. \<not> matches (rs ! k') req)"
  using assms
proof (induction rs)
  case Nil
  then show ?case by simp
next
  case (Cons a rs)
  show ?case
  proof (cases "matches a req")
    case True
    with Cons.prems have "r = a" "pattern a (req_url req) = Some m"
      by (auto simp: matches_def split: option.splits)
    with True show ?thesis by (intro exI [of _ 0]) simp
  next
    case False
    with Cons.prems have "firstMatch rs req = Some (r, m)"
      by (auto simp: matches_def split: option.splits if_splits)
    from Cons.IH [OF this] obtain k where k: "k < length rs" "r = rs ! k" "matches r req"
      "pattern r (req_url req) = Some m" "\<forall>k' < k. \<not> matches (rs ! k') req"
      by blast
    have "\<forall>k' < Suc k. \<not> matches ((a # rs) ! k') req"
      using False k(5) by (auto simp: less_Suc_eq_0_disj)
    with k show ?thesis by (intro exI [of _ "Suc k"]) simp
  qed
qed

lemma serve_first:
  assumes "k < length (routes s)" and "matches (routes s ! k) req"
      and "\<forall>k' < k. \<not> matches (routes s ! k') req"
  shows "serve l s req si =
           callRouterHandler (arrays s) (handler (routes s ! k)) req
             (pattern (routes s ! k) (req_url req)) si"
  using firstMatch_first [OF assms] assms(2)
  by (auto simp: serve_def route_def matches_def)

lemma first_matching_route_serves:
  assumes "i < length (routes s)" and "matches (routes s ! i) req"
  shows "(\<exists>k \<le> i. matches (routes s ! k) req \<and> (\<forall>k' < k. \<not> matches (routes s ! k') req)
            \<and> serve l s req si =
                callRouterHandler (arrays s) (handler (routes s ! k)) req
                  (pattern (routes s ! k) (req_url req)) si)"
proof -
  define k where "k = (LEAST k. matches (routes s ! k) req)"
  have m: "matches (routes s ! k) req"
    unfolding k_def using assms(2) by (rule LeastI)
  have le: "k \<le> i"
    unfolding k_def using assms(2) by (rule Least_le)
  have least: "\<forall>k' < k. \<not> matches (routes s ! k') req"
    unfolding k_def using not_less_Least by blast
  have "k < length (routes s)" using le assms(1) by simp
  from serve_first [OF this m least] m le least show ?thesis
    by blast
qed

section \<open>The sample application, evaluated\<close>

lemmas run_defs = serve_def listen_def route_def runHandler_def runMiddlewares_def createContext_def
  createUserData_def userData_set_def

lemma newResponse_text:
  "200 \<le> st \<Longrightarrow> st \<le> 599 \<Longrightarrow> \<not> nullBodyStatus st \<Longrightarrow>
   newResponse (Some b) st [] =
     Inr \<lparr>status = st, headers = [(''content-type'', ''text/plain;charset=UTF-8'')], body = Some b\<rparr>"
  by (simp add: newResponse_def)

lemma toUpperCase_get: "toUpperCase ''get'' = ''GET''"
  by (simp add: toUpperCase_def asciiUpper_def)

lemma hello_response:
  "hello ctx = Inr \<lparr>status = 200, headers = [(''content-type'', ''text/plain'')], body = Some ''Hello world!''\<rparr>"
  by (simp add: hello_def toText_def newResponse_def nullBodyStatus_def asciiLower_def)

lemma gone_response:
  "gone ctx = Inr \<lparr>status = 410, headers = [(''content-type'', ''text/plain'')], body = Some ''Gone''\<rparr>"
  by (simp add: gone_def toText_def newResponse_def nullBodyStatus_def asciiLower_def)

lemma initialErrorHandler_response:
  "initialErrorHandler ctx err =
     (Returned \<lparr>status = 500, headers = [(''content-type'', ''text/plain;charset=UTF-8'')],
                body = Some (''Error: '' @ message err)\<rparr>, ctx)"
  by (simp add: initialErrorHandler_def newResponse_def nullBodyStatus_def)

lemma demo0_reached: "performAll exactPattern [Use [setFlag ''seen'']] router = Inr demo0"
  by (simp add: demo0_def)

lemma demo1_reached:
  "factory exactPattern (verbName Get) ''/hello'' hello [deny ''Unauthorized'', setFlag ''never''] demo0
     = Inr demo1"
  by (simp add: factory_def exactPattern_def demo1_def demo0_def use_def router_def
      toUpperCase_get createRouterHandler_def)

lemma demo2_reached:
  "performAll exactPattern [Use [setFlag ''late''], OnError teapot] demo1 = Inr demo2"
  by (simp add: demo2_def)

lemma demoNF_reached:
  "performAll exactPattern [Use [setFlag ''late'']] (onNotFound gone demo0) = Inr demoNF"
  by (simp add: demoNF_def)

lemma demoTwo_reached:
  "performAll exactPattern [Register Get ''/hello'' hello [], Register Get ''/hello'' gone []] router
     = Inr demoTwo"
  by (simp add: factory_def exactPattern_def demoTwo_def router_def toUpperCase_get createRouterHandler_def)

lemma demoBroken_reached:
  "performAll exactPattern [Register Get ''/hello'' broken []] demo0 = Inr demoBroken"
  by (simp add: factory_def exactPattern_def demoBroken_def demo0_def use_def router_def
      toUpperCase_get createRouterHandler_def)

lemma demo0_run:
  "serve (listen demo0) demo0 getOther None =
     (Inr \<lparr>status = 404, headers = [(''content-type'', ''text/plain;charset=UTF-8'')],
           body = Some ''Not Found''\<rparr>, [])"
  by (simp add: serve_def listen_def route_def demo0_def use_def router_def newResponse_def
      nullBodyStatus_def)

lemma demo1_run:
  "serve (listen demo1) demo1 getHello None =
     (Inr \<lparr>status = 200, headers = [(''content-type'', ''text/plain'')], body = Some ''Hello world!''\<rparr>,
      [MiddlewareCall (setFlag ''seen'') (createContext getHello (Some []) None),
       MiddlewareCall (deny ''Unauthorized'')
         ((createContext getHello (Some []) None)\<lparr>userData := [''seen'' \<mapsto> JBoolean True]\<rparr>),
       ErrorHandlerCall initialErrorHandler
         ((createContext getHello (Some []) None)\<lparr>userData := [''seen'' \<mapsto> JBoolean True]\<rparr>)
         (JSError ''Error'' ''Unauthorized''),
       HandlerCall hello
         ((createContext getHello (Some []) None)\<lparr>userData := [''seen'' \<mapsto> JBoolean True]\<rparr>)])"
  by (simp add: run_defs demo1_def demo0_def use_def router_def getHello_def setFlag_def deny_def
      hello_response initialErrorHandler_response)

lemma demo2_run:
  "callRouterHandler (arrays demo2) (handler (routes demo2 ! 0)) getHello (Some []) None =
     serve (listen demo1) demo1 getHello None"
  by (simp add: demo2_def demo1_def demo0_def use_def onError_def router_def serve_def listen_def
      route_def getHello_def)

lemma demoNF_run:
  "serve (listen (onNotFound gone demo0)) demoNF getOther None =
     (Inr \<lparr>status = 410, headers = [(''content-type'', ''text/plain'')], body = Some ''Gone''\<rparr>,
      [MiddlewareCall (setFlag ''seen'') (createContext getOther None None),
       HandlerCall gone
         ((createContext getOther None None)\<lparr>userData := [''seen'' \<mapsto> JBoolean True]\<rparr>)])"
  by (simp add: run_defs demoNF_def demo0_def use_def onNotFound_def router_def getOther_def
      setFlag_def gone_response createDenoHandler_def)

lemma demoBroken_match:
  "firstMatch (routes demoBroken) getHello = Some (routes demoBroken ! 0, [])"
  by (simp add: demoBroken_def demo0_def use_def router_def getHello_def)

lemma demoBroken_run:
  "serve (listen demoBroken) demoBroken getHello None =
     (Inl (JSError ''Error'' ''boom''),
      [MiddlewareCall (setFlag ''seen'') (createContext getHello (Some []) None),
       HandlerCall broken
         ((createContext getHello (Some []) None)\<lparr>userData := [''seen'' \<mapsto> JBoolean True]\<rparr>)])"
  by (simp add: run_defs demoBroken_def demo0_def use_def router_def getHello_def setFlag_def broken_def)

lemma demoOne_reached:
  "factory exactPattern (verbName Get) ''/hello'' hello [] router = Inr demoOne"
  by (simp add: factory_def exactPattern_def demoOne_def router_def toUpperCase_get createRouterHandler_def)

lemma demoTwo_after_demoOne:
  "factory exactPattern (verbName Get) ''/hello'' gone [] demoOne = Inr demoTwo"
  by (simp add: factory_def exactPattern_def demoOne_def demoTwo_def router_def toUpperCase_get
      createRouterHandler_def)

lemma demoThree_reached:
  "performAll exactPattern
     [Register Get ''/hello'' hello [], Register Get ''/hello'' gone [],
      Register Get ''/hello'' broken []] router = Inr demoThree"
  by (simp add: factory_def exactPattern_def demoThree_def demoTwo_def router_def toUpperCase_get
      createRouterHandler_def)

lemma demoThree_run:
  "serve (listen demoThree) demoThree getHello None =
     (Inr \<lparr>status = 200, headers = [(''content-type'', ''text/plain'')], body = Some ''Hello world!''\<rparr>,
      [HandlerCall hello (createContext getHello (Some []) None)])"
  by (simp add: run_defs demoThree_def demoTwo_def router_def getHello_def hello_response)

lemma demoThree_second:
  "callRouterHandler (arrays demoThree) (handler (routes demoThree ! 1)) getHello (Some []) None =
     (Inr \<lparr>status = 410, headers = [(''content-type'', ''text/plain'')], body = Some ''Gone''\<rparr>,
      [HandlerCall gone (createContext getHello (Some []) None)])"
  by (simp add: run_defs demoThree_def demoTwo_def router_def getHello_def gone_response)

section \<open>Middleware failure\<close>

text \<open>
  C1. The claim: when a middleware of a matched route fails, the error handler is called
  exactly once with the context and the error, the response it returns becomes the
  response of the request, and the terminal handler is never called. The code calls the
  error handler once, drops what it returns, and goes on to call the terminal handler,
  whose response is the response of the request. Here for \<^verbatim>\<open>GET /hello\<close> on a route
  registered after \<^verbatim>\<open>use(setFlag)\<close> with the middlewares \<^verbatim>\<open>deny\<close> and \<^verbatim>\<open>setFlag\<close>:
  \<^verbatim>\<open>deny\<close> fails, the initial error handler returns its 500 response, and the request
  is answered by the handler with status 200.
\<close>

theorem failing_middleware_reaches_handler:
  "firstMatch (routes demo1) getHello = Some (routes demo1 ! 0, [])
   \<and> arrays demo1 ! rh_middlewares (handler (routes demo1 ! 0))
       = [setFlag ''seen'', deny ''Unauthorized'', setFlag ''never'']
   \<and> fst (deny ''Unauthorized''
        ((createContext getHello (Some []) None)\<lparr>userData := [''seen'' \<mapsto> JBoolean True]\<rparr>))
       = Some (JSError ''Error'' ''Unauthorized'')
   \<and> fst (initialErrorHandler
        ((createContext getHello (Some []) None)\<lparr>userData := [''seen'' \<mapsto> JBoolean True]\<rparr>)
        (JSError ''Error'' ''Unauthorized''))
       = Returned \<lparr>status = 500, headers = [(''content-type'', ''text/plain;charset=UTF-8'')],
                   body = Some ''Error: Unauthorized''\<rparr>
   \<and> serve (listen demo1) demo1 getHello None =
     (Inr \<lparr>status = 200, headers = [(''content-type'', ''text/plain'')], body = Some ''Hello world!''\<rparr>,
      [MiddlewareCall (setFlag ''seen'') (createContext getHello (Some []) None),
       MiddlewareCall (deny ''Unauthorized'')
         ((createContext getHello (Some []) None)\<lparr>userData := [''seen'' \<mapsto> JBoolean True]\<rparr>),
       ErrorHandlerCall initialErrorHandler
         ((createContext getHello (Some []) None)\<lparr>userData := [''seen'' \<mapsto> JBoolean True]\<rparr>)
         (JSError ''Error'' ''Unauthorized''),
       HandlerCall hello
         ((createContext getHello (Some []) None)\<lparr>userData := [''seen'' \<mapsto> JBoolean True]\<rparr>)])"
  by (simp add: demo1_run initialErrorHandler_response)
     (simp add: demo1_def demo0_def use_def router_def getHello_def deny_def)

section \<open>Registration order\<close>

text \<open>
  C2, as the claim states it: for every pair of registered routes R1 and R2, R1
  registered before R2, that both match the method and path of a request, the request
  is routed to the handler of R1. It fails when a route registered before R1 matches as
  well: of three routes registered for \<^verbatim>\<open>GET /hello\<close>, the second and the third are
  such a pair, and the request is answered by the handler of the first, not by the
  handler of the second.
\<close>

theorem registration_order_precedence_counterexample:
  "performAll exactPattern
     [Register Get ''/hello'' hello [], Register Get ''/hello'' gone [],
      Register Get ''/hello'' broken []] router = Inr demoThree
   \<and> matches (routes demoThree ! 1) getHello
   \<and> matches (routes demoThree ! 2) getHello
   \<and> rh_handler (handler (routes demoThree ! 1)) = gone
   \<and> rh_handler (handler (routes demoThree ! 2)) = broken
   \<and> fst (callRouterHandler (arrays demoThree) (handler (routes demoThree ! 1)) getHello (Some []) None)
       = Inr \<lparr>status = 410, headers = [(''content-type'', ''text/plain'')], body = Some ''Gone''\<rparr>
   \<and> fst (serve (listen demoThree) demoThree getHello None)
       = Inr \<lparr>status = 200, headers = [(''content-type'', ''text/plain'')], body = Some ''Hello world!''\<rparr>
   \<and> serve (listen demoThree) demoThree getHello None
       \<noteq> callRouterHandler (arrays demoThree) (handler (routes demoThree ! 1)) getHello (Some []) None"
proof -
  have m: "matches (routes demoThree ! 1) getHello" "matches (routes demoThree ! 2) getHello"
    by (simp_all add: matches_def demoThree_def demoTwo_def router_def getHello_def)
  have h: "rh_handler (handler (routes demoThree ! 1)) = gone"
    "rh_handler (handler (routes demoThree ! 2)) = broken"
    by (simp_all add: demoThree_def demoTwo_def router_def)
  have ne: "serve (listen demoThree) demoThree getHello None
       \<noteq> callRouterHandler (arrays demoThree) (handler (routes demoThree ! 1)) getHello (Some []) None"
    unfolding demoThree_run demoThree_second by simp
  have a: "fst (callRouterHandler (arrays demoThree) (handler (routes demoThree ! 1)) getHello (Some []) None)
       = Inr \<lparr>status = 410, headers = [(''content-type'', ''text/plain'')], body = Some ''Gone''\<rparr>"
    unfolding demoThree_second by simp
  have b: "fst (serve (listen demoThree) demoThree getHello None)
       = Inr \<lparr>status = 200, headers = [(''content-type'', ''text/plain'')], body = Some ''Hello world!''\<rparr>"
    unfolding demoThree_run by simp
  show ?thesis
    using demoThree_reached m h a b ne by blast
qed

text \<open>
  C2, amended. For every pair of routes R1 and R2 registered by the per-method
  functions, R1 before R2, that both match the method and path of a request: the table
  holds R1 before R2, the request is routed to the first route of the table that
  matches, which is R1 or a route registered before R1 and whose handler is never the
  one of R2, and it is routed to the handler of R1, with the middlewares and the error
  handler R1 was registered with, when no route registered before R1 matches.
\<close>

theorem registration_order_precedence:
  assumes before: "performAll U before router = Inr s0"
      and reg1: "factory U (verbName v1) pat1 h1 ms1 s0 = Inr s1"
      and between: "performAll U between s1 = Inr s2"
      and reg2: "factory U (verbName v2) pat2 h2 ms2 s2 = Inr s3"
      and after: "performAll U after s3 = Inr s"
      and p1: "U pat1 = Inr p1" and m1: "p1 (req_url req) = Some g1"
      and v1: "req_method req = toUpperCase (verbName v1)"
      and p2: "U pat2 = Inr p2" and m2: "p2 (req_url req) = Some g2"
      and v2: "req_method req = toUpperCase (verbName v2)"
  shows "length (routes s0) < length (routes s2) \<and> length (routes s2) < length (routes s)
       \<and> routes s ! length (routes s0) =
           \<lparr>method = [toUpperCase (verbName v1)], pattern = p1,
            handler = createRouterHandler h1 (errorHandler s0) (length (arrays s0))\<rparr>
       \<and> routes s ! length (routes s2) =
           \<lparr>method = [toUpperCase (verbName v2)], pattern = p2,
            handler = createRouterHandler h2 (errorHandler s2) (length (arrays s2))\<rparr>
       \<and> matches (routes s ! length (routes s0)) req
       \<and> matches (routes s ! length (routes s2)) req
       \<and> (\<exists>k \<le> length (routes s0).
             matches (routes s ! k) req \<and> (\<forall>k' < k. \<not> matches (routes s ! k') req)
             \<and> handler (routes s ! k) \<noteq> handler (routes s ! length (routes s2))
             \<and> serve l s req si =
                 callRouterHandler (arrays s) (handler (routes s ! k)) req
                   (pattern (routes s ! k) (req_url req)) si)
       \<and> ((\<forall>k < length (routes s0). \<not> matches (routes s ! k) req) \<longrightarrow>
            serve l s req si =
              runHandler h1 (errorHandler s0) (usedMiddlewares before @ ms1)
                (createContext req (Some g1) si))"
proof -
  let ?i1 = "length (routes s0)" and ?i2 = "length (routes s2)"
  have after1: "performAll U (between @ Register v2 pat2 h2 ms2 # after) s1 = Inr s"
    using between reg2 after by (simp add: performAll_append)
  have before2: "performAll U (before @ Register v1 pat1 h1 ms1 # between) router = Inr s2"
    using before reg1 between by (simp add: performAll_append)
  have r1: "routes s ! ?i1 =
           \<lparr>method = [toUpperCase (verbName v1)], pattern = p1,
            handler = createRouterHandler h1 (errorHandler s0) (length (arrays s0))\<rparr>"
    using registered_route_entry [OF before reg1 after1 p1] .
  have r2: "routes s ! ?i2 =
           \<lparr>method = [toUpperCase (verbName v2)], pattern = p2,
            handler = createRouterHandler h2 (errorHandler s2) (length (arrays s2))\<rparr>"
    using registered_route_entry [OF before2 reg2 after p2] .
  have lt12: "?i1 < ?i2"
    using registered_route(4) [OF before reg1 between] .
  have lt2: "?i2 < length (routes s)"
    using registered_route(4) [OF before2 reg2 after] .
  have mt1: "matches (routes s ! ?i1) req"
    using m1 v1 by (simp add: r1 matches_def)
  have mt2: "matches (routes s ! ?i2) req"
    using m2 v2 by (simp add: r2 matches_def)
  have i1: "?i1 < length (routes s)"
    using lt12 lt2 by simp
  have tail: "performAll U (Register v2 pat2 h2 ms2 # after) s2 = Inr s"
    using reg2 after by simp
  have pre2: "prefix (routes s2) (routes s)"
    using performAll_frame [OF tail reachable(1) [OF before2]] by simp
  have other: "handler (routes s ! k) \<noteq> handler (routes s ! ?i2)" if "k \<le> ?i1" for k
  proof -
    have k2: "k < ?i2" using that lt12 by simp
    then have "routes s ! k = routes s2 ! k"
      using prefix_nth [OF pre2] by simp
    moreover have "routes s2 ! k \<in> set (routes s2)"
      using k2 by simp
    ultimately have "rh_middlewares (handler (routes s ! k)) < length (arrays s2)"
      using reachable_addresses [OF before2] by simp
    then show ?thesis
      by (auto simp: r2 createRouterHandler_def)
  qed
  from first_matching_route_serves [OF i1 mt1, of l si] other
  have first: "\<exists>k \<le> ?i1.
             matches (routes s ! k) req \<and> (\<forall>k' < k. \<not> matches (routes s ! k') req)
             \<and> handler (routes s ! k) \<noteq> handler (routes s ! ?i2)
             \<and> serve l s req si =
                 callRouterHandler (arrays s) (handler (routes s ! k)) req
                   (pattern (routes s ! k) (req_url req)) si"
    by blast
  have chain: "arrays s ! length (arrays s0) = usedMiddlewares before @ ms1"
    using registered_route(3) [OF before reg1 after1] .
  have direct: "serve l s req si =
              runHandler h1 (errorHandler s0) (usedMiddlewares before @ ms1)
                (createContext req (Some g1) si)"
    if "\<forall>k < ?i1. \<not> matches (routes s ! k) req"
    using serve_first [OF i1 mt1 that, of l si] m1 chain
    by (simp add: r1 createRouterHandler_def)
  show ?thesis
    using lt12 lt2 r1 r2 mt1 mt2 first direct by blast
qed

theorem registration_order_precedence_witness:
  "performAll exactPattern [] router = Inr (router :: unit router)
   \<and> factory exactPattern (verbName Get) ''/hello'' hello [] router = Inr demoOne
   \<and> performAll exactPattern [] demoOne = Inr demoOne
   \<and> factory exactPattern (verbName Get) ''/hello'' gone [] demoOne = Inr demoTwo
   \<and> performAll exactPattern [] demoTwo = Inr demoTwo
   \<and> exactPattern ''/hello'' = Inr (\<lambda>url. if url = ''/hello'' then Some [] else None)
   \<and> req_method getHello = toUpperCase (verbName Get)
   \<and> length (routes (router :: unit router)) = 0 \<and> length (routes demoOne) = 1
   \<and> rh_handler (handler (routes demoTwo ! 0)) = hello
   \<and> rh_handler (handler (routes demoTwo ! 1)) = gone
   \<and> serve (listen demoTwo) demoTwo getHello None
       = runHandler hello initialErrorHandler [] (createContext getHello (Some []) None)
   \<and> fst (serve (listen demoTwo) demoTwo getHello None)
       = Inr \<lparr>status = 200, headers = [(''content-type'', ''text/plain'')], body = Some ''Hello world!''\<rparr>"
proof -
  have p0: "performAll exactPattern [] router = Inr (router :: unit router)"
    and p1: "performAll exactPattern [] demoOne = Inr demoOne"
    and p2: "performAll exactPattern [] demoTwo = Inr demoTwo"
    by simp_all
  have pat: "exactPattern ''/hello'' = Inr (\<lambda>url. if url = ''/hello'' then Some [] else None)"
    by (simp add: exactPattern_def)
  have m: "(\<lambda>url. if url = ''/hello'' then Some [] else None) (req_url getHello) = Some []"
    by (simp add: getHello_def)
  have v: "req_method getHello = toUpperCase (verbName Get)"
    by (simp add: getHello_def toUpperCase_get)
  have none: "\<forall>k < length (routes (router :: unit router)). \<not> matches (routes demoTwo ! k) getHello"
    by (simp add: router_def)
  note t = registration_order_precedence [OF p0 demoOne_reached p1 demoTwo_after_demoOne p2
      pat m v pat m v, of "listen demoTwo" None]
  from t have "(\<forall>k < length (routes (router :: unit router)). \<not> matches (routes demoTwo ! k) getHello)
      \<longrightarrow> serve (listen demoTwo) demoTwo getHello None
       = runHandler hello (errorHandler router) (usedMiddlewares [] @ [])
           (createContext getHello (Some []) None)"
    by blast
  with none have run: "serve (listen demoTwo) demoTwo getHello None
       = runHandler hello initialErrorHandler [] (createContext getHello (Some []) None)"
    by (simp add: router_def)
  have res: "fst (runHandler hello initialErrorHandler [] (createContext getHello (Some []) None))
       = Inr \<lparr>status = 200, headers = [(''content-type'', ''text/plain'')], body = Some ''Hello world!''\<rparr>"
    by (simp add: runHandler_def runMiddlewares_def hello_response)
  have hs: "rh_handler (handler (routes demoTwo ! 0)) = hello"
    "rh_handler (handler (routes demoTwo ! 1)) = gone"
    "length (routes (router :: unit router)) = 0" "length (routes demoOne) = 1"
    by (simp_all add: demoTwo_def demoOne_def router_def)
  show ?thesis
    using p0 p1 p2 demoOne_reached demoTwo_after_demoOne pat v run res hs by (simp only: simp_thms)
qed

section \<open>Order of the middlewares\<close>

text \<open>
  C3. For a request handled by a registered route, the middlewares run in the declared
  order: the global middlewares (those given to \<^verbatim>\<open>use\<close> before the route was
  registered, in the order of the calls), then the middlewares of the route in the order
  given at registration. The middlewares called are a prefix of that chain, all of it
  when none fails, and no middleware is called after one that failed.
\<close>

theorem middlewares_run_in_declared_order:
  assumes "performAll U before router = Inr s"
      and "factory U (verbName v) pat h ms s = Inr s1"
      and "performAll U after s1 = Inr s2"
      and "callRouterHandler (arrays s2) (handler (routes s2 ! length (routes s))) req ps si = (res, evs)"
  shows "prefix (calledMiddlewares evs) (usedMiddlewares before @ ms)
       \<and> (\<forall>xs ev ys. evs = xs @ ev # ys \<longrightarrow> failedCall ev \<longrightarrow> calledMiddlewares ys = [])
       \<and> ((\<forall>ev \<in> set evs. \<not> failedCall ev) \<longrightarrow> calledMiddlewares evs = usedMiddlewares before @ ms)"
proof -
  note r = registered_route [OF assms(1,2,3)]
  have run: "runHandler h (errorHandler s) (usedMiddlewares before @ ms) (createContext req ps si) = (res, evs)"
    using assms(4) r(2,3) by (simp add: createRouterHandler_def)
  show ?thesis
    using runHandler_order [OF run] by blast
qed

theorem middlewares_run_in_declared_order_witness:
  "performAll exactPattern [Use [setFlag ''seen'']] router = Inr demo0
   \<and> factory exactPattern (verbName Get) ''/hello'' hello [deny ''Unauthorized'', setFlag ''never''] demo0
       = Inr demo1
   \<and> performAll exactPattern [Use [setFlag ''late''], OnError teapot] demo1 = Inr demo2
   \<and> calledMiddlewares
         (snd (callRouterHandler (arrays demo2) (handler (routes demo2 ! 0)) getHello (Some []) None))
       = [setFlag ''seen'', deny ''Unauthorized'']
   \<and> prefix
         (calledMiddlewares
           (snd (callRouterHandler (arrays demo2) (handler (routes demo2 ! 0)) getHello (Some []) None)))
         (usedMiddlewares [Use [setFlag ''seen'']] @ [deny ''Unauthorized'', setFlag ''never''])"
  using middlewares_run_in_declared_order [OF demo0_reached demo1_reached demo2_reached,
      of getHello "Some []" None
        "fst (callRouterHandler (arrays demo2) (handler (routes demo2 ! 0)) getHello (Some []) None)"
        "snd (callRouterHandler (arrays demo2) (handler (routes demo2 ! 0)) getHello (Some []) None)"]
    demo0_reached demo1_reached demo2_reached
  by (simp add: demo2_run demo1_run)

section \<open>Requests that match no route\<close>

text \<open>
  C4, as the claim states it: a request that matches no route runs the global
  middlewares and then the not-found handler. It fails for the initial not-found
  handler, which runs no middleware: after \<^verbatim>\<open>use(setFlag)\<close> the request
  \<^verbatim>\<open>GET /other\<close> is answered with no call at all.
\<close>

theorem unmatched_request_counterexample:
  "firstMatch (routes demo0) getOther = None
   \<and> arrays demo0 ! globalMiddlewares demo0 = [setFlag ''seen'']
   \<and> snd (serve (listen demo0) demo0 getOther None) = []
   \<and> calledMiddlewares (snd (serve (listen demo0) demo0 getOther None))
       \<noteq> arrays demo0 ! globalMiddlewares demo0"
  by (simp add: demo0_run) (simp add: demo0_def use_def router_def)

text \<open>
  C4, amended. A request that matches no registered route calls no middleware of a
  route and no handler of a route; it is answered by the not-found handler that was
  current when \<^verbatim>\<open>listen\<close> was called. The initial one answers 404 \<^verbatim>\<open>Not Found\<close> and
  calls nothing. One installed by \<^verbatim>\<open>onNotFound\<close> calls the global middlewares that
  were given to \<^verbatim>\<open>use\<close> before that \<^verbatim>\<open>onNotFound\<close>, in order, and then, when none
  of them fails, the not-found handler, whose result is the result of the request.
\<close>

theorem unmatched_request:
  assumes "performAll U after s1 = Inr s"
      and "firstMatch (routes s) req = None"
      and "serve (listen s1) s req si = (res, evs)"
  shows "(\<forall>cs. performAll U cs router = Inr s1 \<longrightarrow> (\<forall>c \<in> set cs. \<not> isOnNotFound c) \<longrightarrow>
            evs = [] \<and>
            res = Inr \<lparr>status = 404, headers = [(''content-type'', ''text/plain;charset=UTF-8'')],
                       body = Some ''Not Found''\<rparr>)
       \<and> (\<forall>before s0 h mid.
            performAll U before router = Inr s0 \<longrightarrow>
            performAll U mid (onNotFound h s0) = Inr s1 \<longrightarrow>
            (\<forall>c \<in> set mid. \<not> isOnNotFound c) \<longrightarrow>
              prefix (calledMiddlewares evs) (usedMiddlewares before)
              \<and> (\<forall>h' c. HandlerCall h' c \<in> set evs \<longrightarrow> h' = h)
              \<and> ((\<forall>ev \<in> set evs. \<not> failedCall ev) \<longrightarrow>
                   calledMiddlewares evs = usedMiddlewares before
                   \<and> (\<exists>c. evs = butlast evs @ [HandlerCall h c] \<and> res = h c
                          \<and> (\<forall>ev \<in> set (butlast evs). isMiddlewareCall ev))))"
proof (intro conjI allI impI)
  fix cs
  assume cs: "performAll U cs router = Inr s1" "\<forall>c \<in> set cs. \<not> isOnNotFound c"
  have wf: "globalMiddlewares (router :: 'a router) < length (arrays (router :: 'a router))"
    by (simp add: router_def)
  have "notFoundHandler s1 = InitialNotFound"
    using performAll_frame [OF cs(1) wf] cs(2) by (simp add: router_def)
  then have "serve (listen s1) s req si = (newResponse (Some ''Not Found'') 404 [], [])"
    using assms(2) by (simp add: serve_def listen_def route_def)
  with assms(3) show "evs = []"
    and "res = Inr \<lparr>status = 404, headers = [(''content-type'', ''text/plain;charset=UTF-8'')],
                       body = Some ''Not Found''\<rparr>"
    by (simp_all add: newResponse_text nullBodyStatus_def)
next
  fix before s0 h mid
  assume b: "performAll U before router = Inr s0"
    and m: "performAll U mid (onNotFound h s0) = Inr s1"
    and n: "\<forall>c \<in> set mid. \<not> isOnNotFound c"
  have all: "performAll U (mid @ after) (onNotFound h s0) = Inr s"
    using m assms(1) by (simp add: performAll_append)
  note c1 = compiled_notFound [OF b m]
  note c = compiled_notFound [OF b all]
  have run: "runHandler h (errorHandler s0) (usedMiddlewares before) (createContext req None si) = (res, evs)"
    using assms(2,3) c1(3) n c(1) by (simp add: serve_def listen_def route_def createDenoHandler_def)
  show "prefix (calledMiddlewares evs) (usedMiddlewares before)"
    using runHandler_order(1) [OF run] .
  show "h' = h" if "HandlerCall h' c \<in> set evs" for h' c
    using run
  proof (cases rule: runHandler_shape)
    case (completed ctx' mevs)
    with runLoop_None [OF completed(1)] that show ?thesis by auto
  next
    case (continued err ctx' mevs out ctx'')
    with runLoop_Some [OF continued(1)] that show ?thesis by (auto dest: no_HandlerCall)
  next
    case (thrown err ctx' mevs e ctx'')
    with runLoop_Some [OF thrown(1)] that show ?thesis by (auto dest: no_HandlerCall)
  qed
  assume nf: "\<forall>ev \<in> set evs. \<not> failedCall ev"
  show "calledMiddlewares evs = usedMiddlewares before"
    using runHandler_order(3) [OF run nf] .
  show "\<exists>c. evs = butlast evs @ [HandlerCall h c] \<and> res = h c
                          \<and> (\<forall>ev \<in> set (butlast evs). isMiddlewareCall ev)"
    using run
  proof (cases rule: runHandler_shape)
    case (completed ctx' mevs)
    with runLoop_None [OF completed(1)] show ?thesis by (intro exI [of _ ctx']) simp
  next
    case (continued err ctx' mevs out ctx'')
    with runLoop_Some [OF continued(1)] nf show ?thesis by auto
  next
    case (thrown err ctx' mevs e ctx'')
    with runLoop_Some [OF thrown(1)] nf show ?thesis by auto
  qed
qed

theorem unmatched_request_witness:
  "performAll exactPattern [] demo0 = Inr demo0
   \<and> firstMatch (routes demo0) getOther = None
   \<and> performAll exactPattern [Use [setFlag ''seen'']] router = Inr demo0
   \<and> filter isOnNotFound [Use [setFlag ''seen'']] = []
   \<and> serve (listen demo0) demo0 getOther None
       = (Inr \<lparr>status = 404, headers = [(''content-type'', ''text/plain;charset=UTF-8'')],
               body = Some ''Not Found''\<rparr>, [])
   \<and> performAll exactPattern [] (onNotFound gone demo0) = Inr (onNotFound gone demo0)
   \<and> performAll exactPattern [Use [setFlag ''late'']] (onNotFound gone demo0) = Inr demoNF
   \<and> firstMatch (routes demoNF) getOther = None
   \<and> filter failedCall (snd (serve (listen (onNotFound gone demo0)) demoNF getOther None)) = []
   \<and> calledMiddlewares (snd (serve (listen (onNotFound gone demo0)) demoNF getOther None))
       = usedMiddlewares [Use [setFlag ''seen'']]
   \<and> fst (serve (listen (onNotFound gone demo0)) demoNF getOther None)
       = Inr \<lparr>status = 410, headers = [(''content-type'', ''text/plain'')], body = Some ''Gone''\<rparr>"
proof -
  have m0: "firstMatch (routes demo0) getOther = None"
    by (simp add: demo0_def use_def router_def)
  have p0: "performAll exactPattern [] demo0 = Inr demo0"
    by simp
  have none: "\<forall>c \<in> set [Use [setFlag ''seen'']]. \<not> isOnNotFound c"
    by simp
  note u0 = unmatched_request [OF p0 m0 prod.collapse [symmetric], of None]
  from u0 [THEN conjunct1, rule_format, OF demo0_reached]
  have a: "snd (serve (listen demo0) demo0 getOther None) = []
     \<and> fst (serve (listen demo0) demo0 getOther None)
         = Inr \<lparr>status = 404, headers = [(''content-type'', ''text/plain;charset=UTF-8'')],
                 body = Some ''Not Found''\<rparr>"
    by simp
  have mN: "firstMatch (routes demoNF) getOther = None"
    by (simp add: demoNF_def demo0_def use_def onNotFound_def router_def)
  have pN: "performAll exactPattern [] (onNotFound gone demo0) = Inr (onNotFound gone demo0)"
    by simp
  have nf: "\<forall>ev \<in> set (snd (serve (listen (onNotFound gone demo0)) demoNF getOther None)). \<not> failedCall ev"
    by (simp add: demoNF_run setFlag_def)
  note uN = unmatched_request [OF demoNF_reached mN prod.collapse [symmetric], of None]
  from uN [THEN conjunct2, rule_format, OF demo0_reached pN] nf
  have b: "calledMiddlewares (snd (serve (listen (onNotFound gone demo0)) demoNF getOther None))
       = usedMiddlewares [Use [setFlag ''seen'']]"
    by auto
  have c: "fst (serve (listen (onNotFound gone demo0)) demoNF getOther None)
       = Inr \<lparr>status = 410, headers = [(''content-type'', ''text/plain'')], body = Some ''Gone''\<rparr>"
    by (simp add: demoNF_run)
  show ?thesis
    using a b c m0 mN p0 pN demo0_reached demoNF_reached demo0_run
    by (simp add: demoNF_run setFlag_def)
qed

section \<open>The snapshot of the not-found handler\<close>

text \<open>
  C5. \<^verbatim>\<open>onNotFound\<close> compiles a not-found handler that holds a copy of the global
  middleware list as it is at that moment: whatever calls follow, other than another
  \<^verbatim>\<open>onNotFound\<close>, and \<^verbatim>\<open>use\<close> among them, the compiled handler and the list it
  reads stay the same, while the global list itself grows.
\<close>

theorem onNotFound_keeps_snapshot:
  assumes "performAll U before router = Inr s"
      and "performAll U after (onNotFound h s) = Inr s2"
      and "\<forall>c \<in> set after. \<not> isOnNotFound c"
  shows "notFoundHandler s2 = createDenoHandler h (errorHandler s) (length (arrays s))
       \<and> arrays s2 ! length (arrays s) = usedMiddlewares before
       \<and> arrays s2 ! globalMiddlewares s2 = usedMiddlewares before @ usedMiddlewares after
       \<and> callDenoHandler (arrays s2) (notFoundHandler s2) req si
           = runHandler h (errorHandler s) (usedMiddlewares before) (createContext req None si)"
  using compiled_notFound [OF assms(1,2)] assms(3)
  by (simp add: createDenoHandler_def)

theorem onNotFound_keeps_snapshot_witness:
  "performAll exactPattern [Use [setFlag ''seen'']] router = Inr demo0
   \<and> performAll exactPattern [Use [setFlag ''late'']] (onNotFound gone demo0) = Inr demoNF
   \<and> filter isOnNotFound [Use [setFlag ''late'']] = []
   \<and> notFoundHandler demoNF = createDenoHandler gone initialErrorHandler 1
   \<and> arrays demoNF ! 1 = [setFlag ''seen'']
   \<and> arrays demoNF ! globalMiddlewares demoNF = [setFlag ''seen'', setFlag ''late'']"
  using onNotFound_keeps_snapshot [OF demo0_reached demoNF_reached, of getOther None]
    demo0_reached demoNF_reached
  by (simp add: demoNF_def demo0_def use_def onNotFound_def router_def createDenoHandler_def)

section \<open>Failure of the terminal handler\<close>

text \<open>
  C6. A failure of the terminal handler of a matched route is not intercepted by the
  error handler: the failure is the result of the dispatch function, nothing is called
  after the handler, and the error handler is called only when a middleware failed.
\<close>

theorem handler_failure_propagates:
  assumes "firstMatch (routes s) req = Some (r, m)"
      and "serve l s req si = (res, evs)"
  shows "(\<forall>c e. HandlerCall (rh_handler (handler r)) c \<in> set evs \<longrightarrow>
            rh_handler (handler r) c = Inl e \<longrightarrow> res = Inl e)
       \<and> (\<forall>xs ev ys. evs = xs @ ev # ys \<longrightarrow> isHandlerCall ev \<longrightarrow> ys = [])
       \<and> ((\<exists>ev \<in> set evs. isErrorHandlerCall ev) \<longleftrightarrow> (\<exists>ev \<in> set evs. failedCall ev))"
proof -
  obtain h eh a where r: "handler r = RouterHandler h eh a"
    by (cases "handler r")
  have run: "runHandler h eh (arrays s ! a) (createContext req (Some m) si) = (res, evs)"
    using assms r by (simp add: serve_def route_def)
  from run show ?thesis
  proof (cases rule: runHandler_shape)
    case (completed ctx' mevs)
    note l = runLoop_None [OF completed(1)]
    have "\<forall>ev \<in> set mevs. \<not> isHandlerCall ev \<and> \<not> isErrorHandlerCall ev"
    proof
      fix ev assume "ev \<in> set mevs"
      with l have "isMiddlewareCall ev" by blast
      then show "\<not> isHandlerCall ev \<and> \<not> isErrorHandlerCall ev" by (cases ev) simp_all
    qed
    with completed l r show ?thesis
      by (auto simp: append_eq_append_conv2 append_eq_Cons_conv Cons_eq_append_conv)
  next
    case (continued err ctx' mevs out ctx'')
    from runLoop_Some [OF continued(1)] obtain pre mw c where
      l: "mevs = pre @ [MiddlewareCall mw c]" "fst (mw c) = Some err"
         "\<forall>ev \<in> set pre. isMiddlewareCall ev \<and> \<not> failedCall ev"
      by blast
    have "\<forall>ev \<in> set mevs. \<not> isHandlerCall ev \<and> \<not> isErrorHandlerCall ev"
    proof
      fix ev assume "ev \<in> set mevs"
      with l have "isMiddlewareCall ev" by auto
      then show "\<not> isHandlerCall ev \<and> \<not> isErrorHandlerCall ev" by (cases ev) simp_all
    qed
    with continued l r show ?thesis
      by (auto simp: append_eq_append_conv2 append_eq_Cons_conv Cons_eq_append_conv)
  next
    case (thrown err ctx' mevs e ctx'')
    from runLoop_Some [OF thrown(1)] obtain pre mw c where
      l: "mevs = pre @ [MiddlewareCall mw c]" "fst (mw c) = Some err"
         "\<forall>ev \<in> set pre. isMiddlewareCall ev \<and> \<not> failedCall ev"
      by blast
    have "\<forall>ev \<in> set mevs. \<not> isHandlerCall ev \<and> \<not> isErrorHandlerCall ev"
    proof
      fix ev assume "ev \<in> set mevs"
      with l have "isMiddlewareCall ev" by auto
      then show "\<not> isHandlerCall ev \<and> \<not> isErrorHandlerCall ev" by (cases ev) simp_all
    qed
    with thrown l r show ?thesis
      by (auto simp: append_eq_append_conv2 append_eq_Cons_conv Cons_eq_append_conv)
  qed
qed

theorem handler_failure_propagates_witness:
  "firstMatch (routes demoBroken) getHello = Some (routes demoBroken ! 0, [])
   \<and> rh_handler (handler (routes demoBroken ! 0)) = broken
   \<and> HandlerCall broken
        ((createContext getHello (Some []) None)\<lparr>userData := [''seen'' \<mapsto> JBoolean True]\<rparr>)
       \<in> set (snd (serve (listen demoBroken) demoBroken getHello None))
   \<and> broken ((createContext getHello (Some []) None)\<lparr>userData := [''seen'' \<mapsto> JBoolean True]\<rparr>)
       = Inl (JSError ''Error'' ''boom'')
   \<and> fst (serve (listen demoBroken) demoBroken getHello None) = Inl (JSError ''Error'' ''boom'')
   \<and> \<not> (\<exists>ev \<in> set (snd (serve (listen demoBroken) demoBroken getHello None)). isErrorHandlerCall ev)"
proof -
  have h: "rh_handler (handler (routes demoBroken ! 0)) = broken"
    by (simp add: demoBroken_def demo0_def use_def router_def)
  have b: "broken ((createContext getHello (Some []) None)\<lparr>userData := [''seen'' \<mapsto> JBoolean True]\<rparr>)
       = Inl (JSError ''Error'' ''boom'')"
    by (simp add: broken_def)
  have nf: "\<not> (\<exists>ev \<in> set (snd (serve (listen demoBroken) demoBroken getHello None)). failedCall ev)"
    by (simp add: demoBroken_run setFlag_def)
  from handler_failure_propagates [OF demoBroken_match,
      of "listen demoBroken" None "fst (serve (listen demoBroken) demoBroken getHello None)"
         "snd (serve (listen demoBroken) demoBroken getHello None)"]
  have "(\<forall>c e. HandlerCall broken c \<in> set (snd (serve (listen demoBroken) demoBroken getHello None)) \<longrightarrow>
            broken c = Inl e \<longrightarrow> fst (serve (listen demoBroken) demoBroken getHello None) = Inl e)"
    and "(\<exists>ev \<in> set (snd (serve (listen demoBroken) demoBroken getHello None)). isErrorHandlerCall ev)
         \<longleftrightarrow> (\<exists>ev \<in> set (snd (serve (listen demoBroken) demoBroken getHello None)). failedCall ev)"
    unfolding h by simp_all
  moreover have "HandlerCall broken
        ((createContext getHello (Some []) None)\<lparr>userData := [''seen'' \<mapsto> JBoolean True]\<rparr>)
       \<in> set (snd (serve (listen demoBroken) demoBroken getHello None))"
    by (simp add: demoBroken_run)
  ultimately show ?thesis
    using demoBroken_match h b nf by blast
qed

section \<open>The initial handlers\<close>

text \<open>
  C7. Unless overridden, the error handler returns a text response with status 500
  whose body holds the message of the error, and the not-found handler returns a text
  response with status 404 and the fixed body \<^verbatim>\<open>Not Found\<close>. They stay in the
  router's variables as long as \<^verbatim>\<open>onError\<close>, respectively \<^verbatim>\<open>onNotFound\<close>, is not
  called.
\<close>

theorem initial_handlers:
  fixes s :: "'n router" and ctx :: "'n Context" and store :: "'n arrays"
  shows "errorHandler (router :: 'n router) = initialErrorHandler
       \<and> notFoundHandler (router :: 'n router) = InitialNotFound
       \<and> initialErrorHandler ctx err =
           (Returned \<lparr>status = 500, headers = [(''content-type'', ''text/plain;charset=UTF-8'')],
                      body = Some (''Error: '' @ message err)\<rparr>, ctx)
       \<and> callDenoHandler store InitialNotFound req si =
           (Inr \<lparr>status = 404, headers = [(''content-type'', ''text/plain;charset=UTF-8'')],
                 body = Some ''Not Found''\<rparr>, [])
       \<and> (performAll U cs router = Inr s \<longrightarrow> (\<forall>c \<in> set cs. \<not> isOnError c) \<longrightarrow>
            errorHandler s = initialErrorHandler)
       \<and> (performAll U cs router = Inr s \<longrightarrow> (\<forall>c \<in> set cs. \<not> isOnNotFound c) \<longrightarrow>
            notFoundHandler s = InitialNotFound)"
proof -
  have wf: "globalMiddlewares (router :: 'n router) < length (arrays (router :: 'n router))"
    by (simp add: router_def)
  have "performAll U cs router = Inr s \<longrightarrow> (\<forall>c \<in> set cs. \<not> isOnError c) \<longrightarrow>
            errorHandler s = initialErrorHandler"
    using performAll_frame [of U cs router s, OF _ wf] by (auto simp: router_def)
  moreover have "performAll U cs router = Inr s \<longrightarrow> (\<forall>c \<in> set cs. \<not> isOnNotFound c) \<longrightarrow>
            notFoundHandler s = InitialNotFound"
    using performAll_frame [of U cs router s, OF _ wf] by (auto simp: router_def)
  moreover have "initialErrorHandler ctx err =
           (Returned \<lparr>status = 500, headers = [(''content-type'', ''text/plain;charset=UTF-8'')],
                      body = Some (''Error: '' @ message err)\<rparr>, ctx)"
    by (simp add: initialErrorHandler_def newResponse_text nullBodyStatus_def)
  moreover have "callDenoHandler store InitialNotFound req si =
           (Inr \<lparr>status = 404, headers = [(''content-type'', ''text/plain;charset=UTF-8'')],
                 body = Some ''Not Found''\<rparr>, [])"
    by (simp add: newResponse_text nullBodyStatus_def)
  ultimately show ?thesis by (simp add: router_def)
qed

theorem initial_handlers_witness:
  "performAll exactPattern [Use [setFlag ''seen'']] router = Inr demo0
   \<and> filter isOnError [Use [setFlag ''seen'']] = []
   \<and> filter isOnNotFound [Use [setFlag ''seen'']] = []
   \<and> errorHandler demo0 = initialErrorHandler
   \<and> notFoundHandler demo0 = InitialNotFound
   \<and> fst (errorHandler demo0 (createContext getHello None None) (JSError ''Error'' ''Unauthorized''))
       = Returned \<lparr>status = 500, headers = [(''content-type'', ''text/plain;charset=UTF-8'')],
                   body = Some ''Error: Unauthorized''\<rparr>
   \<and> callDenoHandler (arrays demo0) (notFoundHandler demo0) getOther None
       = (Inr \<lparr>status = 404, headers = [(''content-type'', ''text/plain;charset=UTF-8'')],
               body = Some ''Not Found''\<rparr>, [])"
  using initial_handlers [of "createContext getHello None None" "JSError ''Error'' ''Unauthorized''"
      "arrays demo0" getOther None exactPattern "[Use [setFlag ''seen'']]" demo0]
    demo0_reached
  by simp

section \<open>JSON responses\<close>




section \<open>The UserData store\<close>

text \<open>
  C9. For every key \<open>k\<close> and value \<open>v\<close> of a UserData store: after \<open>set(k, v)\<close>,
  \<open>get(k)\<close> returns \<open>v\<close>; after \<open>set(k, v)\<close>, \<open>del(k)\<close> returns true and a second
  \<open>del(k)\<close> right after it returns false; and \<open>get\<close> on a key that is absent returns
  the absent marker \<open>undefined\<close>. \<open>get\<close> has no failing outcome: it returns a value
  for every key and store.
\<close>

theorem userData_set_get_del:
  fixes store :: "'n userData"
  shows "userData_get k (userData_set k v store) = v
   \<and> fst (userData_del k (userData_set k v store)) = True
   \<and> fst (userData_del k (snd (userData_del k (userData_set k v store)))) = False
   \<and> (store k = None \<longrightarrow> userData_get k store = JUndefined)
   \<and> userData_get k (createUserData :: 'n userData) = JUndefined"
  by (simp add: userData_get_def userData_set_def userData_del_def createUserData_def)

theorem userData_set_get_del_witness:
  "userData_get ''k'' (userData_set ''k'' (JBigInt 1) (createUserData :: unit userData)) = JBigInt 1
   \<and> fst (userData_del ''k'' (userData_set ''k'' (JBigInt 1) (createUserData :: unit userData)))
   \<and> \<not> fst (userData_del ''k''
        (snd (userData_del ''k'' (userData_set ''k'' (JBigInt 1) (createUserData :: unit userData)))))
   \<and> (createUserData :: unit userData) ''absent'' = None
   \<and> userData_get ''absent'' (createUserData :: unit userData) = JUndefined"
  using userData_set_get_del [of "''k''" "JBigInt 1" "createUserData :: unit userData"]
    userData_set_get_del [of "''absent''" "JBigInt 1" "createUserData :: unit userData"]
  by (simp add: createUserData_def userData_del_def userData_set_def)

section \<open>The snapshot of a registered route\<close>

text \<open>
  C10. A route registered by one of the per-method functions holds the error handler
  and a copy of the global middleware list that were current at registration: whatever
  calls follow, \<^verbatim>\<open>onError\<close> and \<^verbatim>\<open>use\<close> among them, the route, its error handler
  and the list it reads stay the same, and so does what a request handled by the route
  runs.
\<close>

theorem registered_route_keeps_snapshot:
  assumes "performAll U before router = Inr s"
      and "factory U (verbName v) pat h ms s = Inr s1"
      and "performAll U after s1 = Inr s2"
  shows "routes s2 ! length (routes s) = routes s1 ! length (routes s)
       \<and> handler (routes s2 ! length (routes s))
           = createRouterHandler h (errorHandler s) (length (arrays s))
       \<and> arrays s2 ! length (arrays s) = usedMiddlewares before @ ms
       \<and> callRouterHandler (arrays s2) (handler (routes s2 ! length (routes s))) req ps si
           = runHandler h (errorHandler s) (usedMiddlewares before @ ms) (createContext req ps si)"
  using registered_route [OF assms]
  by (simp add: createRouterHandler_def)

theorem registered_route_keeps_snapshot_witness:
  "performAll exactPattern [Use [setFlag ''seen'']] router = Inr demo0
   \<and> factory exactPattern (verbName Get) ''/hello'' hello [deny ''Unauthorized'', setFlag ''never''] demo0
       = Inr demo1
   \<and> performAll exactPattern [Use [setFlag ''late''], OnError teapot] demo1 = Inr demo2
   \<and> errorHandler demo2 = teapot
   \<and> arrays demo2 ! globalMiddlewares demo2 = [setFlag ''seen'', setFlag ''late'']
   \<and> handler (routes demo2 ! 0) = createRouterHandler hello initialErrorHandler 1
   \<and> arrays demo2 ! 1 = [setFlag ''seen'', deny ''Unauthorized'', setFlag ''never'']
   \<and> callRouterHandler (arrays demo2) (handler (routes demo2 ! 0)) getHello (Some []) None
       = runHandler hello initialErrorHandler
           [setFlag ''seen'', deny ''Unauthorized'', setFlag ''never'']
           (createContext getHello (Some []) None)"
  using registered_route_keeps_snapshot [OF demo0_reached demo1_reached demo2_reached,
      of getHello "Some []" None]
    demo0_reached demo1_reached demo2_reached
  by (simp add: demo2_def demo1_def demo0_def use_def onError_def router_def createRouterHandler_def)

end
